theory Spec2Isabelle
  imports Complex_Main "HOL-Library.Char_ord" "HOL-Library.List_Lexorder"
    "HOL-Library.Product_Lexorder"
begin

section \<open>Stock trading signals: the analysis of \<open>app.py\<close>\<close>

text \<open>
  The development embeds \<open>load_and_analyze_data\<close> of \<open>app.py\<close> (lines 18 to 71) and the
  guard on its result (lines 74 to 79). The pandas calls are modelled by what they
  compute on a frame whose cells are all present:
  \<^item> a frame is the list of its rows, a row is a record of its columns;
  \<^item> a float64 column holds a \<open>fval\<close>: a real number, an infinity or NaN. Rounding,
    overflow and signed zeros are not modelled: finite arithmetic is that of the reals;
  \<^item> the \<open>Close\<close> column read from a file holds real numbers, \<open>Date\<close> and
    \<open>Expiry\<close> hold strings, compared as Python compares \<open>str\<close> values;
  \<^item> \<open>pd.read_csv\<close> and the parsing of one date cell by \<open>pd.to_datetime\<close> are
    parameters of the model;
  \<^item> \<open>st.error\<close> appends its message to the list of messages shown.
\<close>

subsection \<open>Float columns\<close>

datatype fval = Num real | PInf | NInf | NaN

fun fneg :: "fval \<Rightarrow> fval" where
  "fneg (Num a) = Num (- a)"
| "fneg PInf = NInf"
| "fneg NInf = PInf"
| "fneg NaN = NaN"

fun fadd :: "fval \<Rightarrow> fval \<Rightarrow> fval" where
  "fadd NaN y = NaN"
| "fadd x NaN = NaN"
| "fadd (Num a) (Num b) = Num (a + b)"
| "fadd PInf NInf = NaN"
| "fadd NInf PInf = NaN"
| "fadd PInf y = PInf"
| "fadd NInf y = NInf"
| "fadd (Num a) y = y"

definition fsub :: "fval \<Rightarrow> fval \<Rightarrow> fval" where
  "fsub x y = fadd x (fneg y)"

fun fmul :: "fval \<Rightarrow> fval \<Rightarrow> fval" where
  "fmul NaN y = NaN"
| "fmul x NaN = NaN"
| "fmul (Num a) (Num b) = Num (a * b)"
| "fmul (Num a) y = (if a = 0 then NaN else if 0 < a then y else fneg y)"
| "fmul x (Num b) = (if b = 0 then NaN else if 0 < b then x else fneg x)"
| "fmul x y = (if x = y then PInf else NInf)"

fun fdiv :: "fval \<Rightarrow> fval \<Rightarrow> fval" where
  "fdiv NaN y = NaN"
| "fdiv x NaN = NaN"
| "fdiv (Num a) (Num b) =
     (if b \<noteq> 0 then Num (a / b)
      else if a = 0 then NaN else if 0 < a then PInf else NInf)"
| "fdiv (Num a) y = Num 0"
| "fdiv x (Num b) = (if 0 \<le> b then x else fneg x)"
| "fdiv x y = NaN"

text \<open>Comparisons with NaN on either side are false.\<close>

fun flt :: "fval \<Rightarrow> fval \<Rightarrow> bool" where
  "flt NaN y = False"
| "flt x NaN = False"
| "flt (Num a) (Num b) = (a < b)"
| "flt x NInf = False"
| "flt PInf y = False"
| "flt x y = True"

definition fgt :: "fval \<Rightarrow> fval \<Rightarrow> bool" where
  "fgt x y = flt y x"

fun fle :: "fval \<Rightarrow> fval \<Rightarrow> bool" where
  "fle NaN y = False"
| "fle x NaN = False"
| "fle x y = (\<not> flt y x)"

subsection \<open>Rolling windows\<close>

text \<open>
  \<open>Series.rolling(window=w, min_periods=m)\<close>: one window per row, holding the row and
  the rows before it, at most \<open>w\<close> of them. The loop walks down the column and keeps
  the current window: the next value enters, and the oldest leaves once the window
  holds more than \<open>w\<close> values.
\<close>

fun rolling_loop :: "nat \<Rightarrow> real list \<Rightarrow> real list \<Rightarrow> real list list" where
  "rolling_loop w win [] = []"
| "rolling_loop w win (x # xs) =
     (let entered = win @ [x];
          win' = (if w < length entered then tl entered else entered)
      in win' # rolling_loop w win' xs)"

definition rolling :: "nat \<Rightarrow> real list \<Rightarrow> real list list" where
  "rolling w xs = rolling_loop w [] xs"

text \<open>
  \<open>.mean()\<close> of one window: NaN with fewer than \<open>min_periods\<close> observations, their sum
  over their number otherwise.
\<close>

definition window_mean :: "nat \<Rightarrow> real list \<Rightarrow> fval" where
  "window_mean min_periods win =
     (if min_periods \<le> length win \<and> 0 < length win
      then Num (sum_list win / real (length win)) else NaN)"

text \<open>
  \<open>.std()\<close> of one window, with the default \<open>ddof=1\<close>: NaN unless there are more than
  \<open>ddof\<close> observations, otherwise the square root of the sum of squared differences
  from the mean over the number of observations less \<open>ddof\<close>.
\<close>

definition window_std :: "nat \<Rightarrow> real list \<Rightarrow> fval" where
  "window_std min_periods win =
     (let nobs = length win; ddof = 1 in
      if min_periods \<le> nobs \<and> ddof < nobs
      then Num (sqrt ((\<Sum>x\<leftarrow>win. (x - sum_list win / real nobs)\<^sup>2) / real (nobs - ddof)))
      else NaN)"

definition rolling_mean :: "nat \<Rightarrow> nat \<Rightarrow> real list \<Rightarrow> fval list" where
  "rolling_mean w min_periods xs = map (window_mean min_periods) (rolling w xs)"

definition rolling_std :: "nat \<Rightarrow> nat \<Rightarrow> real list \<Rightarrow> fval list" where
  "rolling_std w min_periods xs = map (window_std min_periods) (rolling w xs)"

subsection \<open>Frames\<close>

text \<open>
  A row of a file: the columns the code names, and the others, each under its header.
  The type of \<open>Date\<close> is a parameter, since \<open>pd.to_datetime\<close> replaces the strings of
  the column by timestamps.
\<close>

record 'd row =
  Date :: 'd
  Expiry :: string
  Close :: real
  Others :: "(string \<times> string) list"

record 'd tagged_row = "'d row" +
  Stock :: string

datatype signal = Hold | Buy | Sell

type_synonym timestamp = int

record point = "timestamp tagged_row" +
  MA_10 :: fval
  STD_10 :: fval
  Upper_Band :: fval
  Lower_Band :: fval
  Signal :: signal
  Std_Deviations :: fval

text \<open>
  What \<open>pd.read_csv(file)\<close> does: it raises \<open>FileNotFoundError\<close>, it raises another
  exception (a file that cannot be parsed, a file with no columns), or it returns a frame.
  A frame without one of the columns \<open>Date\<close>, \<open>Expiry\<close> and \<open>Close\<close> makes a
  later line raise \<open>KeyError\<close>, which nothing catches either: it counts as unreadable.
\<close>

datatype csv = FileNotFound | Unreadable | Table "string row list"

datatype error =
  ReadError string
| ValueError string

subsection \<open>Loading one file (lines 31 to 35)\<close>

definition is_space :: "char \<Rightarrow> bool" where
  "is_space c = (let n = (of_char c :: nat) in (9 \<le> n \<and> n \<le> 13) \<or> (28 \<le> n \<and> n \<le> 32))"

definition strip :: "string \<Rightarrow> string" where
  "strip s = rev (dropWhile is_space (rev (dropWhile is_space s)))"

text \<open>
  \<open>df.columns = df.columns.str.strip()\<close>, on the headers of the other columns. A
  character is a byte here: \<open>is_space\<close> holds of the ASCII characters that Python
  strips, and the white space of Python beyond ASCII is not modelled.
\<close>

definition strip_columns :: "'d row \<Rightarrow> 'd row" where
  "strip_columns r = r\<lparr>Others := map (\<lambda>(h, v). (strip h, v)) (Others r)\<rparr>"

text \<open>\<open>df.sort_values(['Date', 'Expiry'])\<close>: a stable sort on the pair of keys.\<close>

definition sort_values_Date_Expiry :: "string row list \<Rightarrow> string row list" where
  "sort_values_Date_Expiry df = sort_key (\<lambda>r. (Date r, Expiry r)) df"

text \<open>
  \<open>.groupby('Date').first().reset_index()\<close>: one row per value of \<open>Date\<close>, in ascending
  order of these values, holding for each column the first cell of the group in the
  frame's order that is not missing. All cells are present here, so that this is the
  group's first row.
\<close>

definition groupby_Date_first :: "string row list \<Rightarrow> string row list" where
  "groupby_Date_first df =
     List.map_filter (\<lambda>d. find (\<lambda>r. Date r = d) df) (sort (remdups (map Date df)))"

definition tag :: "string \<Rightarrow> 'd row \<Rightarrow> 'd tagged_row" where
  "tag stock_name r =
     \<lparr>Date = Date r, Expiry = Expiry r, Close = Close r, Others = Others r,
      Stock = stock_name\<rparr>"

definition load_file :: "string \<Rightarrow> string row list \<Rightarrow> string tagged_row list" where
  "load_file stock_name df =
     map (tag stock_name)
       (groupby_Date_first (sort_values_Date_Expiry (map strip_columns df)))"

subsection \<open>The loop over the files (lines 28 to 38)\<close>

definition files :: "(string \<times> string) list" where
  "files =
     [(''Eternal'', ''Eternal.csv''),
      (''ADANIGREEN'', ''ADANIGREEN.csv''),
      (''PAYTM'', ''PAYTM.csv''),
      (''NTPC'', ''NTPC.csv''),
      (''DLF'', ''DLF.csv'')]"

definition not_found_message :: "string \<Rightarrow> string" where
  "not_found_message file = ''File '' @ file @ '' not found!''"

text \<open>
  The state of the loop is the list of messages shown and the list \<open>dfs\<close>. Only
  \<open>FileNotFoundError\<close> is caught; any other exception ends the run.
\<close>

fun load_loop ::
  "(string \<Rightarrow> csv) \<Rightarrow> (string \<times> string) list \<Rightarrow> string list \<Rightarrow> string tagged_row list list
    \<Rightarrow> string list \<times> (error + string tagged_row list list)" where
  "load_loop read_csv [] msgs dfs = (msgs, Inr dfs)"
| "load_loop read_csv ((stock_name, file) # rest) msgs dfs =
     (case read_csv file of
        Table df \<Rightarrow> load_loop read_csv rest msgs (dfs @ [load_file stock_name df])
      | FileNotFound \<Rightarrow> load_loop read_csv rest (msgs @ [not_found_message file]) dfs
      | Unreadable \<Rightarrow> (msgs, Inl (ReadError file)))"

subsection \<open>Merging (lines 40 to 45)\<close>

text \<open>
  \<open>pd.to_datetime(combined_df['Date'], format='%d-%b-%Y')\<close> parses every cell of the
  column and raises \<open>ValueError\<close> at a cell it cannot parse. The parameter
  \<open>to_datetime\<close> is the parsing of one cell, \<open>None\<close> where it fails.
\<close>

definition set_Date :: "'e \<Rightarrow> 'd tagged_row \<Rightarrow> 'e tagged_row" where
  "set_Date t r =
     \<lparr>Date = t, Expiry = Expiry r, Close = Close r, Others = Others r, Stock = Stock r\<rparr>"

fun to_datetime_column ::
  "(string \<Rightarrow> timestamp option) \<Rightarrow> string tagged_row list
    \<Rightarrow> error + timestamp tagged_row list" where
  "to_datetime_column to_datetime [] = Inr []"
| "to_datetime_column to_datetime (r # rs) =
     (case to_datetime (Date r) of
        None \<Rightarrow> Inl (ValueError (Date r))
      | Some t \<Rightarrow>
          (case to_datetime_column to_datetime rs of
             Inl e \<Rightarrow> Inl e
           | Inr rs' \<Rightarrow> Inr (set_Date t r # rs')))"

text \<open>\<open>Series.unique()\<close>: the distinct values in order of first appearance.\<close>

fun unique :: "'a list \<Rightarrow> 'a list" where
  "unique [] = []"
| "unique (x # xs) = x # unique (filter (\<lambda>y. y \<noteq> x) xs)"

subsection \<open>The analysis of one stock (lines 52 to 66)\<close>

definition window_size :: nat where
  "window_size = 10"

text \<open>
  In \<open>analyze_stock\<close> below, \<open>sort_values('Date')\<close> is a stable sort. pandas does
  not promise an order among rows of the same date for a sort on one column; the rows
  arrive in order of date already (line 45).
\<close>

text \<open>\<open>col.loc[mask] = v\<close>: the value \<open>v\<close> where the condition holds, the old cell elsewhere.\<close>

definition assign_where :: "bool list \<Rightarrow> 'a \<Rightarrow> 'a list \<Rightarrow> 'a list" where
  "assign_where cond v col = map2 (\<lambda>b old. if b then v else old) cond col"

definition analyze_stock :: "timestamp tagged_row list \<Rightarrow> point list" where
  "analyze_stock selected =
     (let stock_data = sort_key Date selected;
          close = map Close stock_data;
          ma_10 = rolling_mean window_size 1 close;
          std_10 = rolling_std window_size 1 close;
          upper_band = map2 (\<lambda>m s. fadd m (fmul (Num 1) s)) ma_10 std_10;
          lower_band = map2 (\<lambda>m s. fsub m (fmul (Num 1) s)) ma_10 std_10;
          signal0 = map (\<lambda>r. Hold) stock_data;
          signal1 = assign_where (map2 (\<lambda>c l. flt (Num c) l) close lower_band) Buy signal0;
          signal2 = assign_where (map2 (\<lambda>c u. fgt (Num c) u) close upper_band) Sell signal1;
          std_deviations = map2 fdiv (map2 (\<lambda>c m. fsub (Num c) m) close ma_10) std_10
      in map (\<lambda>i.
           \<lparr>Date = Date (stock_data ! i), Expiry = Expiry (stock_data ! i),
            Close = Close (stock_data ! i), Others = Others (stock_data ! i),
            Stock = Stock (stock_data ! i),
            MA_10 = ma_10 ! i, STD_10 = std_10 ! i,
            Upper_Band = upper_band ! i, Lower_Band = lower_band ! i,
            Signal = signal2 ! i, Std_Deviations = std_deviations ! i\<rparr>)
           [0..<length stock_data])"

text \<open>The loop over the stocks: \<open>result_df\<close> grows by one stock's rows at each turn.\<close>

fun analysis_loop ::
  "timestamp tagged_row list \<Rightarrow> string list \<Rightarrow> point list \<Rightarrow> point list" where
  "analysis_loop combined_df [] result_df = result_df"
| "analysis_loop combined_df (stock # rest) result_df =
     analysis_loop combined_df rest
       (result_df @ analyze_stock (filter (\<lambda>r. Stock r = stock) combined_df))"

subsection \<open>The whole function and the guard on its result\<close>

text \<open>
  The list of files is an argument here; \<open>load_and_analyze_data\<close> is the function at
  the list of the source.
\<close>

definition load_and_analyze ::
  "(string \<times> string) list \<Rightarrow> (string \<Rightarrow> timestamp option) \<Rightarrow> (string \<Rightarrow> csv)
    \<Rightarrow> string list \<times> (error + point list)" where
  "load_and_analyze fls to_datetime read_csv =
     (case load_loop read_csv fls [] [] of
        (msgs, Inl e) \<Rightarrow> (msgs, Inl e)
      | (msgs, Inr dfs) \<Rightarrow>
          if dfs = [] then (msgs, Inr [])
          else
            (case to_datetime_column to_datetime (concat dfs) of
               Inl e \<Rightarrow> (msgs, Inl e)
             | Inr parsed \<Rightarrow>
                 (let combined_df = sort_key (\<lambda>r. (Stock r, Date r)) parsed
                  in (msgs, Inr (analysis_loop combined_df (unique (map Stock combined_df)) [])))))"

definition load_and_analyze_data ::
  "(string \<Rightarrow> timestamp option) \<Rightarrow> (string \<Rightarrow> csv) \<Rightarrow> string list \<times> (error + point list)" where
  "load_and_analyze_data to_datetime read_csv = load_and_analyze files to_datetime read_csv"

text \<open>
  Lines 74 to 79: with an empty frame the script shows a message and stops; otherwise
  it goes on to the dashboard with the frame.
\<close>

datatype outcome = Raised error | Stopped | Dashboard "point list"

definition app ::
  "(string \<Rightarrow> timestamp option) \<Rightarrow> (string \<Rightarrow> csv) \<Rightarrow> string list \<times> outcome" where
  "app to_datetime read_csv =
     (case load_and_analyze_data to_datetime read_csv of
        (msgs, Inl e) \<Rightarrow> (msgs, Raised e)
      | (msgs, Inr data) \<Rightarrow>
          if data = [] then (msgs @ [''No data available. Please check your CSV files.''], Stopped)
          else (msgs, Dashboard data))"

subsection \<open>Notions used in the statements\<close>

text \<open>The rows of a file that was read, and no row for a file that was not.\<close>

definition table_rows :: "csv \<Rightarrow> string row list" where
  "table_rows c = (case c of Table df \<Rightarrow> df | FileNotFound \<Rightarrow> [] | Unreadable \<Rightarrow> [])"

definition is_table :: "csv \<Rightarrow> bool" where
  "is_table c = (case c of Table df \<Rightarrow> True | FileNotFound \<Rightarrow> False | Unreadable \<Rightarrow> False)"

text \<open>
  The trailing window of the specification, for the observations \<open>obs\<close>, the index
  \<open>i\<close> and the window size \<open>W\<close>: \<open>start = max(0, i - W + 1)\<close>, the window is
  \<open>obs[start..i]\<close> inclusive; its arithmetic mean; its sample standard deviation
  with the denominator \<open>n - 1\<close>.
\<close>

definition spec_start :: "nat \<Rightarrow> nat \<Rightarrow> nat" where
  "spec_start W i = nat (max 0 (int i - int W + 1))"

definition spec_window :: "nat \<Rightarrow> real list \<Rightarrow> nat \<Rightarrow> real list" where
  "spec_window W obs i = map (\<lambda>j. obs ! j) [spec_start W i..<i + 1]"

definition spec_mean :: "real list \<Rightarrow> real" where
  "spec_mean xs = sum_list xs / real (length xs)"

definition spec_sample_std :: "real list \<Rightarrow> real" where
  "spec_sample_std xs =
     sqrt ((\<Sum>x\<leftarrow>xs. (x - spec_mean xs)\<^sup>2) / (real (length xs) - 1))"

text \<open>
  The observations of one instrument, as the specification has them: the rows loaded
  from the files listed for the instrument and from no other file, each as its parsed
  date and its close, in order of date (rows of one date in the order of loading).
\<close>

definition observations ::
  "(string \<Rightarrow> timestamp option) \<Rightarrow> (string \<Rightarrow> csv) \<Rightarrow> string \<Rightarrow> (timestamp \<times> real) list" where
  "observations to_datetime read_csv stock =
     sort_key fst
       (List.map_filter (\<lambda>r. map_option (\<lambda>t. (t, Close r)) (to_datetime (Date r)))
          (concat (map (\<lambda>(stock_name, file). load_file stock_name (table_rows (read_csv file)))
             (filter (\<lambda>(stock_name, file). stock_name = stock) files))))"

subsection \<open>A concrete run\<close>

text \<open>
  Two files are present and three are missing. \<open>PAYTM.csv\<close> has two rows for
  6 January, with different expiries, and its rows are not in order of date.
\<close>

definition demo_dates :: "string \<Rightarrow> timestamp option" where
  "demo_dates =
     map_of [(''01-Jan-2025'', 20089), (''02-Jan-2025'', 20090),
             (''03-Jan-2025'', 20091), (''06-Jan-2025'', 20094)]"

definition demo_paytm :: "string row list" where
  "demo_paytm =
     [\<lparr>Date = ''06-Jan-2025'', Expiry = ''27-Mar-2025'', Close = 9, Others = [('' Open '', ''9'')]\<rparr>,
      \<lparr>Date = ''01-Jan-2025'', Expiry = ''30-Jan-2025'', Close = 5, Others = [('' Open '', ''5'')]\<rparr>,
      \<lparr>Date = ''02-Jan-2025'', Expiry = ''30-Jan-2025'', Close = 5, Others = [('' Open '', ''5'')]\<rparr>,
      \<lparr>Date = ''03-Jan-2025'', Expiry = ''30-Jan-2025'', Close = 5, Others = [('' Open '', ''5'')]\<rparr>,
      \<lparr>Date = ''06-Jan-2025'', Expiry = ''27-Feb-2025'', Close = 1, Others = [('' Open '', ''2'')]\<rparr>]"

definition demo_ntpc :: "string row list" where
  "demo_ntpc =
     [\<lparr>Date = ''01-Jan-2025'', Expiry = ''30-Jan-2025'', Close = 1, Others = []\<rparr>,
      \<lparr>Date = ''02-Jan-2025'', Expiry = ''30-Jan-2025'', Close = 1, Others = []\<rparr>,
      \<lparr>Date = ''03-Jan-2025'', Expiry = ''30-Jan-2025'', Close = 1, Others = []\<rparr>,
      \<lparr>Date = ''06-Jan-2025'', Expiry = ''30-Jan-2025'', Close = 5, Others = []\<rparr>]"

definition demo_files :: "string \<Rightarrow> csv" where
  "demo_files file =
     (if file = ''PAYTM.csv'' then Table demo_paytm
      else if file = ''NTPC.csv'' then Table demo_ntpc
      else FileNotFound)"

definition demo_msgs :: "string list" where
  "demo_msgs =
     [''File Eternal.csv not found!'', ''File ADANIGREEN.csv not found!'',
      ''File DLF.csv not found!'']"

text \<open>The frame this run returns: four rows of NTPC, then four rows of PAYTM.\<close>

definition demo_data :: "point list" where
  "demo_data =
     [\<lparr>Date = 20089, Expiry = ''30-Jan-2025'', Close = 1, Others = [], Stock = ''NTPC'',
       MA_10 = Num 1, STD_10 = NaN, Upper_Band = NaN, Lower_Band = NaN,
       Signal = Hold, Std_Deviations = NaN\<rparr>,
      \<lparr>Date = 20090, Expiry = ''30-Jan-2025'', Close = 1, Others = [], Stock = ''NTPC'',
       MA_10 = Num 1, STD_10 = Num 0, Upper_Band = Num 1, Lower_Band = Num 1,
       Signal = Hold, Std_Deviations = NaN\<rparr>,
      \<lparr>Date = 20091, Expiry = ''30-Jan-2025'', Close = 1, Others = [], Stock = ''NTPC'',
       MA_10 = Num 1, STD_10 = Num 0, Upper_Band = Num 1, Lower_Band = Num 1,
       Signal = Hold, Std_Deviations = NaN\<rparr>,
      \<lparr>Date = 20094, Expiry = ''30-Jan-2025'', Close = 5, Others = [], Stock = ''NTPC'',
       MA_10 = Num 2, STD_10 = Num 2, Upper_Band = Num 4, Lower_Band = Num 0,
       Signal = Sell, Std_Deviations = Num (3 / 2)\<rparr>,
      \<lparr>Date = 20089, Expiry = ''30-Jan-2025'', Close = 5, Others = [(''Open'', ''5'')], Stock = ''PAYTM'',
       MA_10 = Num 5, STD_10 = NaN, Upper_Band = NaN, Lower_Band = NaN,
       Signal = Hold, Std_Deviations = NaN\<rparr>,
      \<lparr>Date = 20090, Expiry = ''30-Jan-2025'', Close = 5, Others = [(''Open'', ''5'')], Stock = ''PAYTM'',
       MA_10 = Num 5, STD_10 = Num 0, Upper_Band = Num 5, Lower_Band = Num 5,
       Signal = Hold, Std_Deviations = NaN\<rparr>,
      \<lparr>Date = 20091, Expiry = ''30-Jan-2025'', Close = 5, Others = [(''Open'', ''5'')], Stock = ''PAYTM'',
       MA_10 = Num 5, STD_10 = Num 0, Upper_Band = Num 5, Lower_Band = Num 5,
       Signal = Hold, Std_Deviations = NaN\<rparr>,
      \<lparr>Date = 20094, Expiry = ''27-Feb-2025'', Close = 1, Others = [(''Open'', ''2'')], Stock = ''PAYTM'',
       MA_10 = Num 4, STD_10 = Num 2, Upper_Band = Num 6, Lower_Band = Num 2,
       Signal = Buy, Std_Deviations = Num (- (3 / 2))\<rparr>]"

text \<open>A second run, which differs from the first in the file of PAYTM only: it is missing.\<close>

definition demo_files_other :: "string \<Rightarrow> csv" where
  "demo_files_other file = (if file = ''NTPC.csv'' then Table demo_ntpc else FileNotFound)"

definition demo_msgs_other :: "string list" where
  "demo_msgs_other =
     [''File Eternal.csv not found!'', ''File ADANIGREEN.csv not found!'',
      ''File PAYTM.csv not found!'', ''File DLF.csv not found!'']"

text \<open>
  Three more runs: one where \<open>Eternal.csv\<close> exists and cannot be parsed, one where
  every file exists and holds a header and no row, one where every file is missing.
\<close>

definition demo_files_corrupt :: "string \<Rightarrow> csv" where
  "demo_files_corrupt file = (if file = ''Eternal.csv'' then Unreadable else demo_files file)"



text \<open>
  A run with a series longer than the window: \<open>DLF.csv\<close> has twelve rows, the other
  files are missing.
\<close>

definition demo_dates_long :: "string \<Rightarrow> timestamp option" where
  "demo_dates_long =
     map_of [(''01-Jan-2025'', 20089), (''02-Jan-2025'', 20090), (''03-Jan-2025'', 20091),
             (''04-Jan-2025'', 20092), (''05-Jan-2025'', 20093), (''06-Jan-2025'', 20094),
             (''07-Jan-2025'', 20095), (''08-Jan-2025'', 20096), (''09-Jan-2025'', 20097),
             (''10-Jan-2025'', 20098), (''11-Jan-2025'', 20099), (''12-Jan-2025'', 20100)]"

definition demo_dlf :: "string row list" where
  "demo_dlf =
     [\<lparr>Date = ''01-Jan-2025'', Expiry = ''30-Jan-2025'', Close = 10, Others = []\<rparr>,
      \<lparr>Date = ''02-Jan-2025'', Expiry = ''30-Jan-2025'', Close = 12, Others = []\<rparr>,
      \<lparr>Date = ''03-Jan-2025'', Expiry = ''30-Jan-2025'', Close = 11, Others = []\<rparr>,
      \<lparr>Date = ''04-Jan-2025'', Expiry = ''30-Jan-2025'', Close = 13, Others = []\<rparr>,
      \<lparr>Date = ''05-Jan-2025'', Expiry = ''30-Jan-2025'', Close = 15, Others = []\<rparr>,
      \<lparr>Date = ''06-Jan-2025'', Expiry = ''30-Jan-2025'', Close = 14, Others = []\<rparr>,
      \<lparr>Date = ''07-Jan-2025'', Expiry = ''30-Jan-2025'', Close = 16, Others = []\<rparr>,
      \<lparr>Date = ''08-Jan-2025'', Expiry = ''30-Jan-2025'', Close = 18, Others = []\<rparr>,
      \<lparr>Date = ''09-Jan-2025'', Expiry = ''30-Jan-2025'', Close = 17, Others = []\<rparr>,
      \<lparr>Date = ''10-Jan-2025'', Expiry = ''30-Jan-2025'', Close = 19, Others = []\<rparr>,
      \<lparr>Date = ''11-Jan-2025'', Expiry = ''30-Jan-2025'', Close = 21, Others = []\<rparr>,
      \<lparr>Date = ''12-Jan-2025'', Expiry = ''30-Jan-2025'', Close = 20, Others = []\<rparr>]"

definition demo_files_long :: "string \<Rightarrow> csv" where
  "demo_files_long file = (if file = ''DLF.csv'' then Table demo_dlf else FileNotFound)"





text \<open>
  A run that differs from the first concrete run in \<open>PAYTM.csv\<close> only, which now holds
  a date that \<open>pd.to_datetime\<close> cannot parse.
\<close>

definition demo_files_baddate :: "string \<Rightarrow> csv" where
  "demo_files_baddate file =
     (if file = ''PAYTM.csv''
      then Table [\<lparr>Date = ''31-Feb-2025'', Expiry = ''27-Mar-2025'', Close = 5, Others = []\<rparr>]
      else demo_files file)"

section \<open>Properties\<close>

subsection \<open>Rolling windows\<close>

lemma rolling_loop_length: "length (rolling_loop w win xs) = length xs"
  by (induction xs arbitrary: win) (simp_all add: Let_def)

lemma rolling_loop_nth:
  "length win \<le> w \<Longrightarrow> i < length xs \<Longrightarrow>
   rolling_loop w win xs ! i = drop (length win + Suc i - w) (win @ take (Suc i) xs)"
proof (induction xs arbitrary: win i)
  case Nil
  then show ?case by simp
next
  case (Cons x xs)
  let ?win' = "if w < length (win @ [x]) then tl (win @ [x]) else win @ [x]"
  have len: "length ?win' \<le> w" using Cons.prems(1) by auto
  show ?case
  proof (cases i)
    case 0
    show ?thesis
    proof (cases "w < length (win @ [x])")
      case True
      then have lw: "length win = w" using Cons.prems(1) by simp
      then have a: "length win + Suc 0 - w = Suc 0" by simp
      have b: "drop (Suc 0) (win @ [x]) = tl (win @ [x])" by (cases win) simp_all
      have "rolling_loop w win (x # xs) ! 0 = tl (win @ [x])"
        using True by (simp add: Let_def)
      then show ?thesis using 0 a b by simp
    next
      case False
      then show ?thesis using 0 by (simp add: Let_def)
    qed
  next
    case (Suc j)
    then have j: "j < length xs" using Cons.prems(2) by simp
    have "rolling_loop w win (x # xs) ! i = rolling_loop w ?win' xs ! j"
      using Suc by (simp add: Let_def)
    also have "\<dots> = drop (length ?win' + Suc j - w) (?win' @ take (Suc j) xs)"
      using Cons.IH[OF len j] .
    also have "\<dots> = drop (length win + Suc i - w) (win @ take (Suc i) (x # xs))"
    proof (cases "w < length (win @ [x])")
      case True
      then have lw: "length win = w" using Cons.prems(1) by simp
      have lw': "length (tl (win @ [x])) = w" using lw by simp
      have t: "tl (win @ x # take (Suc j) xs) = tl (win @ [x]) @ take (Suc j) xs"
        by (cases win) simp_all
      have "drop (length (tl (win @ [x])) + Suc j - w) (tl (win @ [x]) @ take (Suc j) xs)
            = drop (Suc j) (tl (win @ [x]) @ take (Suc j) xs)"
        by (simp only: lw' add_diff_cancel_left')
      also have "\<dots> = drop (Suc (Suc j)) (win @ x # take (Suc j) xs)"
        by (simp only: drop_Suc[of "Suc j"] t)
      also have "\<dots> = drop (length win + Suc i - w) (win @ take (Suc i) (x # xs))"
        using Suc by (simp only: lw add_diff_cancel_left' take_Suc_Cons)
      finally show ?thesis using True by (simp only: if_True)
    next
      case False
      then show ?thesis using Suc by simp
    qed
    finally show ?thesis .
  qed
qed

lemma rolling_length: "length (rolling w xs) = length xs"
  by (simp add: rolling_def rolling_loop_length)

lemma rolling_nth:
  "i < length xs \<Longrightarrow> rolling w xs ! i = drop (Suc i - w) (take (Suc i) xs)"
  by (simp add: rolling_def rolling_loop_nth)

lemma drop_take_upt:
  "n \<le> length xs \<Longrightarrow> drop m (take n xs) = map (\<lambda>j. xs ! j) [m..<n]"
  by (rule nth_equalityI) auto

lemma rolling_nth_length:
  "i < length xs \<Longrightarrow> length (rolling w xs ! i) = min (Suc i) w"
  by (auto simp: rolling_nth)

lemma rolling_nth_last:
  "i < length xs \<Longrightarrow> 0 < w \<Longrightarrow> last (rolling w xs ! i) = xs ! i"
proof -
  assume i: "i < length xs" and w: "0 < w"
  have ne: "rolling w xs ! i \<noteq> []"
    using rolling_nth_length[OF i, of w] w by auto
  have "last (rolling w xs ! i) = last (take (Suc i) xs)"
    using ne by (simp add: rolling_nth[OF i] )
  also have "\<dots> = xs ! i" using i by (simp add: take_Suc_conv_app_nth)
  finally show ?thesis .
qed

subsection \<open>Statistics of one window\<close>

lemma window_mean_Num:
  "win \<noteq> [] \<Longrightarrow> window_mean 1 win = Num (sum_list win / real (length win))"
  by (cases win) (simp_all add: window_mean_def)

lemma window_std_cases:
  "window_std 1 win =
     (if length win \<le> 1 then NaN
      else Num (sqrt ((\<Sum>x\<leftarrow>win. (x - sum_list win / real (length win))\<^sup>2)
                      / (real (length win) - 1))))"
  by (auto simp: window_std_def Let_def of_nat_diff)

lemma sum_squares_nonneg: "0 \<le> (\<Sum>x\<leftarrow>win. (x - (c::real))\<^sup>2)"
  by (rule sum_list_nonneg) auto

lemma window_std_nonneg: "window_std 1 win = Num s \<Longrightarrow> 0 \<le> s"
  unfolding window_std_cases by (auto simp: sum_squares_nonneg split: if_splits)

lemma window_std_zero:
  assumes "window_std 1 win = Num 0" and "x \<in> set win"
  shows "x = sum_list win / real (length win)"
proof -
  let ?m = "sum_list win / real (length win)"
  from assms(1) have len: "1 < length win"
    and z: "sqrt ((\<Sum>x\<leftarrow>win. (x - ?m)\<^sup>2) / (real (length win) - 1)) = 0"
    unfolding window_std_cases by (auto split: if_splits)
  from z len have "(\<Sum>x\<leftarrow>win. (x - ?m)\<^sup>2) = 0" by simp
  moreover have "\<And>y. y \<in> set (map (\<lambda>x. (x - ?m)\<^sup>2) win) \<Longrightarrow> 0 \<le> y" by auto
  ultimately have "\<forall>y \<in> set (map (\<lambda>x. (x - ?m)\<^sup>2) win). y = 0"
    using sum_list_nonneg_eq_0_iff[of "map (\<lambda>x. (x - ?m)\<^sup>2) win"] by blast
  with assms(2) have "(x - ?m)\<^sup>2 = 0" by simp
  then show ?thesis by simp
qed

subsection \<open>The rows of one stock\<close>

lemma rolling_mean_length: "length (rolling_mean w m xs) = length xs"
  by (simp add: rolling_mean_def rolling_length)

lemma rolling_std_length: "length (rolling_std w m xs) = length xs"
  by (simp add: rolling_std_def rolling_length)

lemma analyze_stock_length: "length (analyze_stock selected) = length selected"
  by (simp add: analyze_stock_def Let_def)

lemma analyze_stock_nth:
  assumes "i < length selected"
  defines "r \<equiv> sort_key Date selected ! i"
    and "win \<equiv> rolling window_size (map Close (sort_key Date selected)) ! i"
  defines "m \<equiv> window_mean 1 win" and "s \<equiv> window_std 1 win"
  shows "analyze_stock selected ! i =
    \<lparr>Date = Date r, Expiry = Expiry r, Close = Close r, Others = Others r, Stock = Stock r,
     MA_10 = m, STD_10 = s,
     Upper_Band = fadd m (fmul (Num 1) s), Lower_Band = fsub m (fmul (Num 1) s),
     Signal = (if fgt (Num (Close r)) (fadd m (fmul (Num 1) s)) then Sell
               else if flt (Num (Close r)) (fsub m (fmul (Num 1) s)) then Buy else Hold),
     Std_Deviations = fdiv (fsub (Num (Close r)) m) s\<rparr>"
  using assms(1)
  by (simp add: analyze_stock_def Let_def assign_where_def rolling_mean_def rolling_std_def
      rolling_length r_def win_def m_def s_def)

subsection \<open>The loop over the stocks\<close>

lemma analysis_loop_concat:
  "analysis_loop c stocks acc =
     acc @ concat (map (\<lambda>s. analyze_stock (filter (\<lambda>r. Stock r = s) c)) stocks)"
  by (induction stocks arbitrary: acc) simp_all

lemma unique_set: "set (unique xs) = set xs"
  by (induction xs rule: unique.induct) auto

lemma unique_distinct: "distinct (unique xs)"
  by (induction xs rule: unique.induct) (auto simp: unique_set)

lemma analyze_stock_in_set:
  assumes "p \<in> set (analyze_stock selected)"
  obtains i where "i < length selected" and "p = analyze_stock selected ! i"
  using assms by (auto simp: in_set_conv_nth analyze_stock_length)

lemma analyze_stock_Stock:
  assumes "p \<in> set (analyze_stock selected)"
  shows "Stock p \<in> Stock ` set selected"
proof -
  from assms obtain i where i: "i < length selected" and p: "p = analyze_stock selected ! i"
    by (rule analyze_stock_in_set)
  have "sort_key Date selected ! i \<in> set (sort_key Date selected)"
    using i by (intro nth_mem) simp
  then show ?thesis using i p by (simp add: analyze_stock_nth)
qed

lemma filter_blocks:
  assumes "distinct ss" and "\<And>s p. s \<in> set ss \<Longrightarrow> p \<in> set (f s) \<Longrightarrow> Stock p = s"
  shows "filter (\<lambda>p. Stock p = a) (concat (map f ss)) = (if a \<in> set ss then f a else [])"
  using assms
proof (induction ss)
  case Nil
  then show ?case by simp
next
  case (Cons s ss)
  have own: "filter (\<lambda>p. Stock p = a) (f s) = (if s = a then f s else [])"
    using Cons.prems(2)[of s] by (auto simp: filter_empty_conv intro: filter_True)
  have rest: "filter (\<lambda>p. Stock p = a) (concat (map f ss)) = (if a \<in> set ss then f a else [])"
    using Cons by simp
  show ?case using own rest Cons.prems(1) by auto
qed

lemma analyze_stock_Nil: "analyze_stock [] = []"
  by (simp add: analyze_stock_def)

lemma filter_result:
  "filter (\<lambda>p. Stock p = a) (analysis_loop c (unique (map Stock c)) [])
     = analyze_stock (filter (\<lambda>r. Stock r = a) c)"
proof -
  let ?f = "\<lambda>s. analyze_stock (filter (\<lambda>r. Stock r = s) c)"
  have "filter (\<lambda>p. Stock p = a) (concat (map ?f (unique (map Stock c))))
          = (if a \<in> set (unique (map Stock c)) then ?f a else [])"
    by (rule filter_blocks) (auto simp: unique_distinct dest: analyze_stock_Stock)
  moreover have "a \<notin> set (map Stock c) \<Longrightarrow> filter (\<lambda>r. Stock r = a) c = []"
    by (auto simp: filter_empty_conv)
  ultimately show ?thesis
    by (auto simp: analysis_loop_concat unique_set analyze_stock_Nil simp del: set_map)
qed

lemma result_in_set:
  assumes "p \<in> set (analysis_loop c (unique (map Stock c)) [])"
  shows "p \<in> set (analyze_stock (filter (\<lambda>r. Stock r = Stock p) c))"
proof -
  from assms have "p \<in> set (filter (\<lambda>q. Stock q = Stock p) (analysis_loop c (unique (map Stock c)) []))"
    by simp
  then show ?thesis by (simp only: filter_result)
qed

subsection \<open>The loop over the files\<close>

lemma load_loop_closed:
  "load_loop rd fls msgs dfs =
     (msgs @ map (\<lambda>(s, f). not_found_message f)
         (filter (\<lambda>(s, f). rd f = FileNotFound) (takeWhile (\<lambda>(s, f). rd f \<noteq> Unreadable) fls)),
      case dropWhile (\<lambda>(s, f). rd f \<noteq> Unreadable) fls of
        [] \<Rightarrow> Inr (dfs @ map (\<lambda>(s, f). load_file s (table_rows (rd f)))
                       (filter (\<lambda>(s, f). is_table (rd f)) fls))
      | (s, f) # rest \<Rightarrow> Inl (ReadError f))"
proof (induction fls arbitrary: msgs dfs)
  case Nil
  then show ?case by simp
next
  case (Cons sf fls)
  obtain s f where sf: "sf = (s, f)" by (cases sf)
  show ?case
  proof (cases "rd f")
    case FileNotFound
    then show ?thesis unfolding sf using Cons.IH[of "msgs @ [not_found_message f]" dfs]
      by (simp add: is_table_def cong: list.case_cong)
  next
    case Unreadable
    then show ?thesis unfolding sf by simp
  next
    case (Table df)
    then show ?thesis unfolding sf using Cons.IH[of msgs "dfs @ [load_file s df]"]
      by (simp add: is_table_def table_rows_def cong: list.case_cong)
  qed
qed

lemma load_loop_Inr:
  assumes "load_loop rd fls msgs dfs = (m, Inr dfs')"
  shows "\<forall>(s, f) \<in> set fls. rd f \<noteq> Unreadable"
    and "m = msgs @ map (\<lambda>(s, f). not_found_message f) (filter (\<lambda>(s, f). rd f = FileNotFound) fls)"
    and "dfs' = dfs @ map (\<lambda>(s, f). load_file s (table_rows (rd f)))
                       (filter (\<lambda>(s, f). is_table (rd f)) fls)"
proof -
  have d: "dropWhile (\<lambda>(s, f). rd f \<noteq> Unreadable) fls = []"
  proof (cases "dropWhile (\<lambda>(s, f). rd f \<noteq> Unreadable) fls")
    case Nil
    then show ?thesis .
  next
    case (Cons sf rest)
    then show ?thesis using assms unfolding load_loop_closed by (cases sf) simp
  qed
  then show a: "\<forall>(s, f) \<in> set fls. rd f \<noteq> Unreadable"
    by (auto simp: dropWhile_eq_Nil_conv)
  then have t: "takeWhile (\<lambda>(s, f). rd f \<noteq> Unreadable) fls = fls"
    by (auto simp: takeWhile_eq_all_conv)
  from assms show "m = msgs @ map (\<lambda>(s, f). not_found_message f) (filter (\<lambda>(s, f). rd f = FileNotFound) fls)"
    unfolding load_loop_closed t by simp
  from assms show "dfs' = dfs @ map (\<lambda>(s, f). load_file s (table_rows (rd f)))
                       (filter (\<lambda>(s, f). is_table (rd f)) fls)"
    unfolding load_loop_closed d by simp
qed

subsection \<open>Parsing the dates\<close>

lemma to_datetime_column_Inr:
  "to_datetime_column td rs = Inr rs' \<Longrightarrow>
     rs' = map (\<lambda>r. set_Date (the (td (Date r))) r) rs \<and> (\<forall>r \<in> set rs. td (Date r) \<noteq> None)"
  by (induction rs arbitrary: rs') (auto split: option.splits sum.splits)

lemma to_datetime_column_ok:
  "\<forall>r \<in> set rs. td (Date r) \<noteq> None \<Longrightarrow>
     to_datetime_column td rs = Inr (map (\<lambda>r. set_Date (the (td (Date r))) r) rs)"
  by (induction rs) (auto split: option.splits sum.splits)

subsection \<open>The result of a run that returns\<close>

lemma load_file_Nil: "load_file s [] = []"
  by (simp add: load_file_def sort_values_Date_Expiry_def groupby_Date_first_def)

lemma concat_tables:
  "concat (map (\<lambda>(s, f). load_file s (table_rows (rd f))) (filter (\<lambda>(s, f). is_table (rd f)) fls))
     = concat (map (\<lambda>(s, f). load_file s (table_rows (rd f))) fls)"
  by (induction fls)
     (auto simp: is_table_def table_rows_def load_file_Nil split: csv.splits)

lemma load_and_analyze_Inr:
  assumes "load_and_analyze fls td rd = (m, Inr out)"
  defines "rows \<equiv> concat (map (\<lambda>(s, f). load_file s (table_rows (rd f))) fls)"
  defines "combined \<equiv>
     sort_key (\<lambda>r. (Stock r, Date r)) (map (\<lambda>r. set_Date (the (td (Date r))) r) rows)"
  shows "out = analysis_loop combined (unique (map Stock combined)) []"
    and "\<forall>r \<in> set rows. td (Date r) \<noteq> None"
    and "\<forall>(s, f) \<in> set fls. rd f \<noteq> Unreadable"
    and "m = map (\<lambda>(s, f). not_found_message f) (filter (\<lambda>(s, f). rd f = FileNotFound) fls)"
proof -
  obtain m' res where ll: "load_loop rd fls [] [] = (m', res)" by (cases "load_loop rd fls [] []")
  from assms(1) ll obtain dfs where res: "res = Inr dfs" and mm: "m' = m"
    by (cases res) (auto simp: load_and_analyze_def Let_def split: if_splits sum.splits)
  note L = load_loop_Inr[OF ll[unfolded res mm]]
  show "\<forall>(s, f) \<in> set fls. rd f \<noteq> Unreadable" by (rule L(1))
  show "m = map (\<lambda>(s, f). not_found_message f) (filter (\<lambda>(s, f). rd f = FileNotFound) fls)"
    using L(2) by simp
  have cd: "concat dfs = rows" using L(3) by (simp add: rows_def concat_tables)
  show "out = analysis_loop combined (unique (map Stock combined)) []"
    and "\<forall>r \<in> set rows. td (Date r) \<noteq> None"
  proof -
    show "out = analysis_loop combined (unique (map Stock combined)) []"
    proof (cases "dfs = []")
      case True
      then have "rows = []" using cd by simp
      moreover have "out = []" using assms(1) ll res True by (simp add: load_and_analyze_def)
      ultimately show ?thesis by (simp add: combined_def)
    next
      case False
      with assms(1) ll res obtain parsed where
        p: "to_datetime_column td (concat dfs) = Inr parsed"
        and o: "out = analysis_loop (sort_key (\<lambda>r. (Stock r, Date r)) parsed)
                  (unique (map Stock (sort_key (\<lambda>r. (Stock r, Date r)) parsed))) []"
        by (auto simp: load_and_analyze_def Let_def split: sum.splits)
      from to_datetime_column_Inr[OF p] o show ?thesis by (simp add: combined_def cd)
    qed
    show "\<forall>r \<in> set rows. td (Date r) \<noteq> None"
    proof (cases "dfs = []")
      case True
      then have "rows = []" using cd by simp
      then show ?thesis by simp
    next
      case False
      with assms(1) ll res obtain parsed where
        p: "to_datetime_column td (concat dfs) = Inr parsed"
        by (auto simp: load_and_analyze_def Let_def split: sum.splits)
      from to_datetime_column_Inr[OF p] show ?thesis by (simp add: cd)
    qed
  qed
qed

lemma load_and_analyze_ok:
  assumes "\<forall>(s, f) \<in> set fls. rd f \<noteq> Unreadable"
    and "\<forall>r \<in> set (concat (map (\<lambda>(s, f). load_file s (table_rows (rd f))) fls)). td (Date r) \<noteq> None"
  shows "\<exists>out. load_and_analyze fls td rd =
     (map (\<lambda>(s, f). not_found_message f) (filter (\<lambda>(s, f). rd f = FileNotFound) fls), Inr out)"
proof -
  have d: "dropWhile (\<lambda>(s, f). rd f \<noteq> Unreadable) fls = []"
    and t: "takeWhile (\<lambda>(s, f). rd f \<noteq> Unreadable) fls = fls"
    using assms(1) by (auto simp: dropWhile_eq_Nil_conv takeWhile_eq_all_conv)
  let ?dfs = "map (\<lambda>(s, f). load_file s (table_rows (rd f))) (filter (\<lambda>(s, f). is_table (rd f)) fls)"
  have ll: "load_loop rd fls [] [] =
     (map (\<lambda>(s, f). not_found_message f) (filter (\<lambda>(s, f). rd f = FileNotFound) fls), Inr ?dfs)"
    unfolding load_loop_closed d t by simp
  have "to_datetime_column td (concat ?dfs) = Inr (map (\<lambda>r. set_Date (the (td (Date r))) r) (concat ?dfs))"
    by (rule to_datetime_column_ok) (use assms(2) in \<open>simp only: concat_tables\<close>)
  then show ?thesis using ll by (simp add: load_and_analyze_def Let_def)
qed

lemma by_stock:
  assumes "load_and_analyze fls td rd = (m, Inr out)"
  shows "filter (\<lambda>p. Stock p = a) out =
     analyze_stock (sort_key (\<lambda>r. (Stock r, Date r))
       (map (\<lambda>r. set_Date (the (td (Date r))) r)
         (filter (\<lambda>r. Stock r = a)
            (concat (map (\<lambda>(s, f). load_file s (table_rows (rd f))) fls)))))"
proof -
  have "filter (\<lambda>r. Stock r = a) (map (\<lambda>r. set_Date (the (td (Date r))) r) rows)
        = map (\<lambda>r. set_Date (the (td (Date r))) r) (filter (\<lambda>r. Stock r = a) rows)" for rows :: "string tagged_row list"
    by (induction rows) (simp_all add: set_Date_def)
  then show ?thesis
    unfolding load_and_analyze_Inr(1)[OF assms] filter_result filter_sort by simp
qed

subsection \<open>One row of the result\<close>

lemma fmul_one: "fmul (Num 1) x = x"
  by (cases x) simp_all

lemma window_nonempty:
  "i < length xs \<Longrightarrow> rolling window_size xs ! i \<noteq> []"
  using rolling_nth_length[of i xs window_size] by (auto simp: window_size_def)

text \<open>
  Every row of the result is a row of the analysis of one stock, and its derived cells
  are computed from one window \<open>win\<close> that ends in the row's own close.
\<close>

lemma point_shape:
  assumes "load_and_analyze fls td rd = (msgs, Inr data)" and "p \<in> set data"
  obtains win where "win \<noteq> []" and "last win = Close p"
    and "MA_10 p = Num (sum_list win / real (length win))"
    and "STD_10 p = window_std 1 win"
    and "Upper_Band p = fadd (MA_10 p) (STD_10 p)"
    and "Lower_Band p = fsub (MA_10 p) (STD_10 p)"
    and "Signal p = (if fgt (Num (Close p)) (Upper_Band p) then Sell
                     else if flt (Num (Close p)) (Lower_Band p) then Buy else Hold)"
    and "Std_Deviations p = fdiv (fsub (Num (Close p)) (MA_10 p)) (STD_10 p)"
proof -
  define c where "c = sort_key (\<lambda>r. (Stock r, Date r))
     (map (\<lambda>r. set_Date (the (td (Date r))) r)
        (concat (map (\<lambda>(s, f). load_file s (table_rows (rd f))) fls)))"
  define selected where "selected = filter (\<lambda>r. Stock r = Stock p) c"
  have "data = analysis_loop c (unique (map Stock c)) []"
    using load_and_analyze_Inr(1)[OF assms(1)] by (simp add: c_def)
  with assms(2) have "p \<in> set (analyze_stock selected)"
    using result_in_set[of p c] by (simp add: selected_def)
  then obtain i where i: "i < length selected" and p: "p = analyze_stock selected ! i"
    by (rule analyze_stock_in_set)
  define xs where "xs = map Close (sort_key Date selected)"
  define win where "win = rolling window_size xs ! i"
  have ix: "i < length xs" using i by (simp add: xs_def)
  have ne: "win \<noteq> []" unfolding win_def by (rule window_nonempty[OF ix])
  have la: "last win = xs ! i"
    unfolding win_def by (rule rolling_nth_last[OF ix]) (simp add: window_size_def)
  note shape = analyze_stock_nth[OF i, folded xs_def, folded win_def, folded p]
  show thesis
  proof (rule that[of win])
    show "win \<noteq> []" by (rule ne)
    show "last win = Close p" using la i by (simp add: shape xs_def)
    show "MA_10 p = Num (sum_list win / real (length win))"
      using window_mean_Num[OF ne] by (simp add: shape)
    show "STD_10 p = window_std 1 win" by (simp add: shape)
    show "Upper_Band p = fadd (MA_10 p) (STD_10 p)" by (simp add: shape fmul_one)
    show "Lower_Band p = fsub (MA_10 p) (STD_10 p)" by (simp add: shape fmul_one)
    show "Signal p = (if fgt (Num (Close p)) (Upper_Band p) then Sell
                     else if flt (Num (Close p)) (Lower_Band p) then Buy else Hold)"
      by (simp add: shape fmul_one)
    show "Std_Deviations p = fdiv (fsub (Num (Close p)) (MA_10 p)) (STD_10 p)"
      by (simp add: shape)
  qed
qed

lemma std_shape: "window_std 1 win = NaN \<or> (\<exists>s\<ge>0. window_std 1 win = Num s)"
  unfolding window_std_cases by (auto simp: sum_squares_nonneg)

subsection \<open>The concrete run\<close>

lemmas run_defs =
  load_and_analyze_data_def load_and_analyze_def files_def load_file_def
  sort_values_Date_Expiry_def groupby_Date_first_def List.map_filter_def strip_columns_def tag_def
  set_Date_def analyze_stock_def rolling_mean_def rolling_std_def rolling_def window_mean_def
  window_std_def assign_where_def window_size_def fsub_def fgt_def not_found_message_def
  strip_def is_space_def Let_def

lemma demo_run: "load_and_analyze_data demo_dates demo_files = (demo_msgs, Inr demo_data)"
  by (simp add: run_defs demo_dates_def demo_files_def demo_paytm_def demo_ntpc_def
      demo_msgs_def demo_data_def)

subsection \<open>Bands and signals\<close>

lemma band_values:
  assumes "MA_10 p = Num m" and "STD_10 p = Num s"
    and "Upper_Band p = fadd (MA_10 p) (STD_10 p)"
    and "Lower_Band p = fsub (MA_10 p) (STD_10 p)"
  shows "Upper_Band p = Num (m + s)" and "Lower_Band p = Num (m - s)"
  using assms by (simp_all add: fsub_def)

lemma band_NaN:
  assumes "MA_10 p = Num m" and "STD_10 p = NaN"
    and "Upper_Band p = fadd (MA_10 p) (STD_10 p)"
    and "Lower_Band p = fsub (MA_10 p) (STD_10 p)"
  shows "Upper_Band p = NaN" and "Lower_Band p = NaN"
  using assms by (simp_all add: fsub_def)

text \<open>
  C3. In every row of the result the upper band is the moving average plus the standard
  deviation and the lower band is the moving average minus it (the multiplier of the
  source is 1 on both sides); where the standard deviation is a number that is not
  negative, the lower band is at most the moving average, which is at most the upper band.
\<close>

theorem bands_around_moving_average:
  assumes "load_and_analyze_data td rd = (msgs, Inr data)" and "p \<in> set data"
  shows "Upper_Band p = fadd (MA_10 p) (STD_10 p)
       \<and> Lower_Band p = fsub (MA_10 p) (STD_10 p)
       \<and> (\<forall>s. STD_10 p = Num s \<and> 0 \<le> s \<longrightarrow>
             fle (Lower_Band p) (MA_10 p) \<and> fle (MA_10 p) (Upper_Band p))"
proof -
  from assms obtain win where
    ma: "MA_10 p = Num (sum_list win / real (length win))"
    and up: "Upper_Band p = fadd (MA_10 p) (STD_10 p)"
    and lo: "Lower_Band p = fsub (MA_10 p) (STD_10 p)"
    unfolding load_and_analyze_data_def by (rule point_shape)
  have "fle (Lower_Band p) (MA_10 p) \<and> fle (MA_10 p) (Upper_Band p)"
    if "STD_10 p = Num s" and "0 \<le> s" for s
    using band_values[OF ma that(1) up lo] ma that(2) by simp
  then show ?thesis using up lo by blast
qed

theorem bands_around_moving_average_witness:
  "load_and_analyze_data demo_dates demo_files = (demo_msgs, Inr demo_data)
   \<and> demo_data ! 7 \<in> set demo_data
   \<and> STD_10 (demo_data ! 7) = Num 2
   \<and> Upper_Band (demo_data ! 7) = Num 6 \<and> Lower_Band (demo_data ! 7) = Num 2
   \<and> fle (Lower_Band (demo_data ! 7)) (MA_10 (demo_data ! 7))
   \<and> fle (MA_10 (demo_data ! 7)) (Upper_Band (demo_data ! 7))"
proof -
  have mem: "demo_data ! 7 \<in> set demo_data" by (simp add: demo_data_def)
  have sd: "STD_10 (demo_data ! 7) = Num 2" by (simp add: demo_data_def)
  from bands_around_moving_average[OF demo_run mem] sd
  have "fle (Lower_Band (demo_data ! 7)) (MA_10 (demo_data ! 7))
      \<and> fle (MA_10 (demo_data ! 7)) (Upper_Band (demo_data ! 7))" by fastforce
  moreover have "Upper_Band (demo_data ! 7) = Num 6 \<and> Lower_Band (demo_data ! 7) = Num 2"
    by (simp add: demo_data_def)
  ultimately show ?thesis using demo_run mem sd by blast
qed

text \<open>
  C1. Every row of the result has one signal: Buy exactly when the close is strictly
  below the lower band, Sell exactly when it is strictly above the upper band, Hold
  exactly when it is neither. The signal is Hold where the standard deviation is NaN or
  zero, and where the close equals one of the bands.
\<close>

theorem signal_classification:
  assumes "load_and_analyze_data td rd = (msgs, Inr data)" and "p \<in> set data"
  shows "(Signal p = Buy \<longleftrightarrow> flt (Num (Close p)) (Lower_Band p))
       \<and> (Signal p = Sell \<longleftrightarrow> fgt (Num (Close p)) (Upper_Band p))
       \<and> (Signal p = Hold \<longleftrightarrow>
            \<not> flt (Num (Close p)) (Lower_Band p) \<and> \<not> fgt (Num (Close p)) (Upper_Band p))
       \<and> (STD_10 p = NaN \<or> STD_10 p = Num 0 \<longrightarrow> Signal p = Hold)
       \<and> (Lower_Band p = Num (Close p) \<or> Upper_Band p = Num (Close p) \<longrightarrow> Signal p = Hold)"
proof -
  from assms obtain win where ne: "win \<noteq> []" and la: "last win = Close p"
    and ma: "MA_10 p = Num (sum_list win / real (length win))"
    and sd: "STD_10 p = window_std 1 win"
    and up: "Upper_Band p = fadd (MA_10 p) (STD_10 p)"
    and lo: "Lower_Band p = fsub (MA_10 p) (STD_10 p)"
    and sg: "Signal p = (if fgt (Num (Close p)) (Upper_Band p) then Sell
                     else if flt (Num (Close p)) (Lower_Band p) then Buy else Hold)"
    unfolding load_and_analyze_data_def by (rule point_shape)
  let ?m = "sum_list win / real (length win)"
  from std_shape[of win] sd consider "STD_10 p = NaN" | s where "STD_10 p = Num s" "0 \<le> s"
    by auto
  then show ?thesis
  proof cases
    case 1
    from band_NaN[OF ma 1 up lo] sg 1 show ?thesis by (simp add: fgt_def)
  next
    case (2 s)
    note b = band_values[OF ma 2(1) up lo]
    have zero: "Close p = ?m" if "s = 0"
    proof -
      have "last win \<in> set win" using ne by simp
      then show ?thesis using window_std_zero[of win "last win"] sd 2(1) that la by simp
    qed
    show ?thesis using b sg 2 zero by (auto simp: fgt_def)
  qed
qed

theorem signal_classification_witness:
  "load_and_analyze_data demo_dates demo_files = (demo_msgs, Inr demo_data)
   \<and> demo_data ! 7 \<in> set demo_data
   \<and> Signal (demo_data ! 7) = Buy
   \<and> flt (Num (Close (demo_data ! 7))) (Lower_Band (demo_data ! 7))
   \<and> \<not> fgt (Num (Close (demo_data ! 7))) (Upper_Band (demo_data ! 7))"
proof -
  have mem: "demo_data ! 7 \<in> set demo_data" by (simp add: demo_data_def)
  have buy: "Signal (demo_data ! 7) = Buy" by (simp add: demo_data_def)
  from signal_classification[OF demo_run mem] buy
  have "flt (Num (Close (demo_data ! 7))) (Lower_Band (demo_data ! 7))
      \<and> \<not> fgt (Num (Close (demo_data ! 7))) (Upper_Band (demo_data ! 7))" by simp
  then show ?thesis using demo_run mem buy by blast
qed



subsection \<open>The rows of one instrument\<close>

lemma analyze_stock_Close: "map Close (analyze_stock selected) = map Close (sort_key Date selected)"
  by (rule nth_equalityI) (simp_all add: analyze_stock_length analyze_stock_nth)

lemma analyze_stock_Date: "map Date (analyze_stock selected) = map Date (sort_key Date selected)"
  by (rule nth_equalityI) (simp_all add: analyze_stock_length analyze_stock_nth)

lemma spec_start_eq: "spec_start W i = Suc i - W"
  by (simp add: spec_start_def)

lemma rolling_is_spec_window:
  assumes "i < length xs"
  shows "rolling W xs ! i = spec_window W xs i"
proof -
  have "rolling W xs ! i = drop (Suc i - W) (take (Suc i) xs)"
    by (rule rolling_nth[OF assms])
  also have "\<dots> = map (\<lambda>j. xs ! j) [Suc i - W..<Suc i]"
    using assms by (intro drop_take_upt) simp
  finally show ?thesis by (simp add: spec_window_def spec_start_eq)
qed

subsection \<open>Sorting and grouping one file\<close>

lemma insort_key_cong_order:
  assumes "\<And>y. y \<in> set zs \<Longrightarrow> (f x \<le> f y) = (g x \<le> g y)"
  shows "insort_key f x zs = insort_key g x zs"
  using assms by (induction zs) simp_all

lemma sort_key_cong_order:
  assumes "\<And>x y. x \<in> set xs \<Longrightarrow> y \<in> set xs \<Longrightarrow> (f x \<le> f y) = (g x \<le> g y)"
  shows "sort_key f xs = sort_key g xs"
  using assms
proof (induction xs)
  case Nil
  then show ?case by simp
next
  case (Cons x xs)
  have "sort_key f xs = sort_key g xs" using Cons by simp
  moreover have "insort_key f x (sort_key g xs) = insort_key g x (sort_key g xs)"
    by (rule insort_key_cong_order) (simp add: Cons.prems)
  ultimately show ?case by simp
qed

lemma insort_key_map:
  "insort_key f (g x) (map g zs) = map g (insort_key (\<lambda>r. f (g r)) x zs)"
  by (induction zs) simp_all

lemma sort_key_map:
  "sort_key f (map g xs) = map g (sort_key (\<lambda>r. f (g r)) xs)"
  by (induction xs) (simp_all add: insort_key_map)










subsection \<open>Missing and unreadable files\<close>

lemma load_loop_skips_missing:
  "snd (load_loop rd fls msgs dfs)
     = snd (load_loop rd (filter (\<lambda>(s, f). rd f \<noteq> FileNotFound) fls) msgs' dfs)"
proof (induction fls arbitrary: msgs msgs' dfs)
  case Nil
  then show ?case by simp
next
  case (Cons sf fls)
  obtain s f where sf: "sf = (s, f)" by (cases sf)
  show ?case
  proof (cases "rd f")
    case FileNotFound
    then show ?thesis unfolding sf using Cons.IH[of "msgs @ [not_found_message f]" dfs msgs']
      by simp
  next
    case Unreadable
    then show ?thesis unfolding sf by simp
  next
    case (Table df)
    then show ?thesis unfolding sf using Cons.IH[of msgs "dfs @ [load_file s df]" msgs']
      by simp
  qed
qed

lemma load_and_analyze_fst: "fst (load_and_analyze fls td rd) = fst (load_loop rd fls [] [])"
  by (cases "load_loop rd fls [] []")
     (auto simp: load_and_analyze_def Let_def split: sum.splits)

lemma load_and_analyze_snd:
  assumes "snd (load_loop rd fls [] []) = snd (load_loop rd fls' [] [])"
  shows "snd (load_and_analyze fls td rd) = snd (load_and_analyze fls' td rd)"
proof -
  obtain m res where a: "load_loop rd fls [] [] = (m, res)" by (cases "load_loop rd fls [] []")
  obtain m' res' where b: "load_loop rd fls' [] [] = (m', res')" by (cases "load_loop rd fls' [] []")
  from assms a b have "res' = res" by simp
  then show ?thesis using a b
    by (cases res) (auto simp: load_and_analyze_def Let_def split: sum.splits)
qed

lemma load_and_analyze_unreadable:
  assumes "\<exists>(s, f) \<in> set fls. rd f = Unreadable"
  shows "\<exists>f. rd f = Unreadable \<and> snd (load_and_analyze fls td rd) = Inl (ReadError f)"
proof -
  from assms have "dropWhile (\<lambda>(s, f). rd f \<noteq> Unreadable) fls \<noteq> []"
    by (auto simp: dropWhile_eq_Nil_conv)
  then obtain s f rest where d: "dropWhile (\<lambda>(s, f). rd f \<noteq> Unreadable) fls = (s, f) # rest"
    by (cases "dropWhile (\<lambda>(s, f). rd f \<noteq> Unreadable) fls") auto
  from hd_dropWhile[of "\<lambda>(s, f). rd f \<noteq> Unreadable" fls] d have u: "rd f = Unreadable"
    by simp
  have "snd (load_loop rd fls [] []) = Inl (ReadError f)"
    unfolding load_loop_closed d by simp
  then have "snd (load_and_analyze fls td rd) = Inl (ReadError f)"
    by (cases "load_loop rd fls [] []") (auto simp: load_and_analyze_def)
  with u show ?thesis by blast
qed

text \<open>
  C6, as the code has it. A file that is missing is skipped: the result of the run is
  the result of the run over the files that are not missing, and, when no file raises
  another exception, one message \<open>File ... not found!\<close> is shown for each missing
  file. A file whose reading raises another exception ends the run with this exception.
\<close>

theorem missing_sources_skipped:
  "snd (load_and_analyze_data td rd)
     = snd (load_and_analyze (filter (\<lambda>(s, f). rd f \<noteq> FileNotFound) files) td rd)
   \<and> ((\<forall>(s, f) \<in> set files. rd f \<noteq> Unreadable) \<longrightarrow>
        fst (load_and_analyze_data td rd)
          = map (\<lambda>(s, f). not_found_message f) (filter (\<lambda>(s, f). rd f = FileNotFound) files))
   \<and> ((\<exists>(s, f) \<in> set files. rd f = Unreadable) \<longrightarrow>
        (\<exists>f. rd f = Unreadable \<and> snd (load_and_analyze_data td rd) = Inl (ReadError f)))"
proof -
  have a: "snd (load_and_analyze_data td rd)
     = snd (load_and_analyze (filter (\<lambda>(s, f). rd f \<noteq> FileNotFound) files) td rd)"
    unfolding load_and_analyze_data_def
    by (rule load_and_analyze_snd) (rule load_loop_skips_missing)
  have b: "fst (load_and_analyze_data td rd)
          = map (\<lambda>(s, f). not_found_message f) (filter (\<lambda>(s, f). rd f = FileNotFound) files)"
    if "\<forall>(s, f) \<in> set files. rd f \<noteq> Unreadable"
  proof -
    from that have t: "takeWhile (\<lambda>(s, f). rd f \<noteq> Unreadable) files = files"
      by (auto simp: takeWhile_eq_all_conv)
    show ?thesis
      unfolding load_and_analyze_data_def load_and_analyze_fst load_loop_closed t by simp
  qed
  have c: "\<exists>f. rd f = Unreadable \<and> snd (load_and_analyze_data td rd) = Inl (ReadError f)"
    if "\<exists>(s, f) \<in> set files. rd f = Unreadable"
    unfolding load_and_analyze_data_def by (rule load_and_analyze_unreadable[OF that])
  from a b c show ?thesis by blast
qed

theorem missing_sources_skipped_witness:
  "list_all (\<lambda>(s, f). demo_files f \<noteq> Unreadable) files
   \<and> filter (\<lambda>(s, f). demo_files f \<noteq> FileNotFound) files
       = [(''PAYTM'', ''PAYTM.csv''), (''NTPC'', ''NTPC.csv'')]
   \<and> snd (load_and_analyze [(''PAYTM'', ''PAYTM.csv''), (''NTPC'', ''NTPC.csv'')]
            demo_dates demo_files) = Inr demo_data
   \<and> fst (load_and_analyze_data demo_dates demo_files) = demo_msgs
   \<and> (\<exists>(s, f) \<in> set files. demo_files_corrupt f = Unreadable)
   \<and> snd (load_and_analyze_data demo_dates demo_files_corrupt) = Inl (ReadError ''Eternal.csv'')"
proof -
  have ok: "\<forall>(s, f) \<in> set files. demo_files f \<noteq> Unreadable"
    by (simp add: files_def demo_files_def)
  have present: "filter (\<lambda>(s, f). demo_files f \<noteq> FileNotFound) files
       = [(''PAYTM'', ''PAYTM.csv''), (''NTPC'', ''NTPC.csv'')]"
    by (simp add: files_def demo_files_def)
  have bad: "\<exists>(s, f) \<in> set files. demo_files_corrupt f = Unreadable"
    by (simp add: files_def demo_files_corrupt_def)
  have only: "f = ''Eternal.csv''" if "demo_files_corrupt f = Unreadable" for f
    using that by (simp add: demo_files_corrupt_def demo_files_def split: if_splits)
  note t1 = missing_sources_skipped[of demo_dates demo_files]
  note t2 = missing_sources_skipped[of demo_dates demo_files_corrupt]
  from t1 present demo_run
  have r: "snd (load_and_analyze [(''PAYTM'', ''PAYTM.csv''), (''NTPC'', ''NTPC.csv'')]
            demo_dates demo_files) = Inr demo_data" by simp
  from t1 ok demo_run have m: "fst (load_and_analyze_data demo_dates demo_files) = demo_msgs"
    by simp
  from t2 bad obtain f where "demo_files_corrupt f = Unreadable"
    and "snd (load_and_analyze_data demo_dates demo_files_corrupt) = Inl (ReadError f)"
    by blast
  with only have e: "snd (load_and_analyze_data demo_dates demo_files_corrupt)
      = Inl (ReadError ''Eternal.csv'')" by simp
  from ok have ok': "list_all (\<lambda>(s, f). demo_files f \<noteq> Unreadable) files"
    by (simp add: list_all_iff)
  from ok' present r m bad e show ?thesis by blast
qed

text \<open>
  The claim C6 as stated fails: \<open>Eternal.csv\<close> cannot be read, and the run ends with
  the exception, although the run over the four other files returns the frame of the
  first concrete run.
\<close>

theorem unreadable_source_aborts:
  "demo_files_corrupt ''Eternal.csv'' = Unreadable
   \<and> app demo_dates demo_files_corrupt = ([], Raised (ReadError ''Eternal.csv''))
   \<and> load_and_analyze (tl files) demo_dates demo_files_corrupt
       = ([''File ADANIGREEN.csv not found!'', ''File DLF.csv not found!''], Inr demo_data)"
proof -
  have a: "demo_files_corrupt ''Eternal.csv'' = Unreadable" by (simp add: demo_files_corrupt_def)
  have b: "app demo_dates demo_files_corrupt = ([], Raised (ReadError ''Eternal.csv''))"
    by (simp add: app_def load_and_analyze_data_def load_and_analyze_def files_def
        demo_files_corrupt_def)
  have c: "load_and_analyze (tl files) demo_dates demo_files_corrupt
       = ([''File ADANIGREEN.csv not found!'', ''File DLF.csv not found!''], Inr demo_data)"
    by (simp add: run_defs demo_dates_def demo_files_corrupt_def demo_files_def
        demo_paytm_def demo_ntpc_def demo_data_def)
  from a b c show ?thesis by blast
qed

subsection \<open>Where the rows of the result come from\<close>








subsection \<open>The empty result\<close>






subsection \<open>The observations of one instrument\<close>

lemma own_files:
  "filter (\<lambda>r. Stock r = a) (concat (map (\<lambda>(s, f). load_file s (table_rows (rd f))) fls))
      = concat (map (\<lambda>(s, f). load_file s (table_rows (rd f))) (filter (\<lambda>(s, f). s = a) fls))"
  by (induction fls) (auto simp: load_file_def tag_def filter_empty_conv intro: filter_True)

lemma map_filter_parsed:
  assumes "\<forall>r \<in> set rs. td (Date r) \<noteq> None"
  shows "List.map_filter (\<lambda>r. map_option (\<lambda>t. (t, Close r)) (td (Date r))) rs
     = map (\<lambda>q. (Date q, Close q)) (map (\<lambda>r. set_Date (the (td (Date r))) r) rs)"
  using assms by (induction rs) (auto simp: List.map_filter_simps set_Date_def)

lemma instrument_rows:
  assumes "load_and_analyze_data td rd = (msgs, Inr data)"
  shows "map (\<lambda>p. (Date p, Close p)) (filter (\<lambda>p. Stock p = a) data) = observations td rd a"
proof -
  define F where "F = filter (\<lambda>r. Stock r = a)
     (concat (map (\<lambda>(s, f). load_file s (table_rows (rd f))) files))"
  define P where "P = map (\<lambda>r. set_Date (the (td (Date r))) r) F"
  note run = assms[unfolded load_and_analyze_data_def]
  have parsed: "\<forall>r \<in> set F. td (Date r) \<noteq> None"
    using load_and_analyze_Inr(2)[OF run] unfolding F_def by (meson filter_is_subset subsetD)
  have stock: "Stock q = a" if "q \<in> set P" for q
    using that by (auto simp: P_def F_def set_Date_def)
  have s1: "sort_key (\<lambda>r. (Stock r, Date r)) P = sort_key Date P"
    by (rule sort_key_cong_order) (auto simp: less_eq_prod_simp stock)
  have s2: "sort_key Date (sort_key Date P) = sort_key Date P"
    by (rule sort_key_id_if_sorted) simp
  have rows: "filter (\<lambda>p. Stock p = a) data = analyze_stock (sort_key (\<lambda>r. (Stock r, Date r)) P)"
    using by_stock[OF run, of a] by (simp add: P_def F_def)
  have "map (\<lambda>p. (Date p, Close p)) (analyze_stock sel)
      = map (\<lambda>p. (Date p, Close p)) (sort_key Date sel)" for sel
    by (rule nth_equalityI) (simp_all add: analyze_stock_length analyze_stock_nth)
  then have "map (\<lambda>p. (Date p, Close p)) (filter (\<lambda>p. Stock p = a) data)
      = map (\<lambda>q. (Date q, Close q)) (sort_key Date (sort_key Date P))"
    unfolding rows s1 .
  then have "map (\<lambda>p. (Date p, Close p)) (filter (\<lambda>p. Stock p = a) data)
      = map (\<lambda>q. (Date q, Close q)) (sort_key Date P)"
    unfolding s2 .
  also have "\<dots> = sort_key fst (map (\<lambda>q. (Date q, Close q)) P)"
    by (simp add: sort_key_map)
  also have "map (\<lambda>q. (Date q, Close q)) P
      = List.map_filter (\<lambda>r. map_option (\<lambda>t. (t, Close r)) (td (Date r))) F"
    unfolding P_def by (rule map_filter_parsed[OF parsed, symmetric])
  finally show ?thesis by (simp add: observations_def F_def own_files)
qed

lemma window_statistics:
  assumes "load_and_analyze_data td rd = (msgs, Inr data)"
    and "obs = filter (\<lambda>p. Stock p = a) data" and "i < length obs"
  shows "length (spec_window 10 (map Close obs) i) = min (i + 1) 10
       \<and> MA_10 (obs ! i) = Num (spec_mean (spec_window 10 (map Close obs) i))
       \<and> STD_10 (obs ! i) =
            (if length (spec_window 10 (map Close obs) i) = 1 then NaN
             else Num (spec_sample_std (spec_window 10 (map Close obs) i)))"
proof -
  obtain selected where obs: "obs = analyze_stock selected"
    using by_stock[OF assms(1)[unfolded load_and_analyze_data_def], of a] assms(2) by simp
  define xs where "xs = map Close (sort_key Date selected)"
  have cl: "map Close obs = xs" by (simp add: obs xs_def analyze_stock_Close)
  have i: "i < length selected" using assms(3) by (simp add: obs analyze_stock_length)
  have ix: "i < length xs" using i by (simp add: xs_def)
  define win where "win = spec_window 10 xs i"
  have w: "rolling window_size xs ! i = win"
    unfolding win_def window_size_def by (rule rolling_is_spec_window[OF ix])
  have len: "length win = min (i + 1) 10"
    using rolling_nth_length[OF ix, of window_size] unfolding w by (simp add: window_size_def)
  then have ne: "win \<noteq> []" by auto
  have "MA_10 (obs ! i) = Num (spec_mean win)"
    using window_mean_Num[OF ne]
    by (simp add: obs analyze_stock_nth[OF i] w[unfolded xs_def] spec_mean_def)
  moreover have "STD_10 (obs ! i) = (if length win = 1 then NaN else Num (spec_sample_std win))"
  proof -
    have "STD_10 (obs ! i) = window_std 1 win"
      by (simp add: obs analyze_stock_nth[OF i] w[unfolded xs_def])
    also have "\<dots> = (if length win = 1 then NaN else Num (spec_sample_std win))"
      unfolding window_std_cases using ne
      by (cases win) (simp_all add: spec_sample_std_def spec_mean_def)
    finally show ?thesis .
  qed
  ultimately show ?thesis using len unfolding cl win_def by blast
qed

lemma first_row:
  assumes "load_and_analyze_data td rd = (msgs, Inr data)"
    and "filter (\<lambda>p. Stock p = a) data = p # rest"
  shows "MA_10 p = Num (Close p) \<and> STD_10 p = NaN \<and> Signal p = Hold"
proof -
  obtain selected where obs: "p # rest = analyze_stock selected"
    using by_stock[OF assms(1)[unfolded load_and_analyze_data_def], of a] assms(2) by simp
  then have i: "0 < length selected"
    using analyze_stock_length[of selected] by (cases selected) auto
  have p: "p = analyze_stock selected ! 0" using obs[symmetric] by simp
  define xs where "xs = map Close (sort_key Date selected)"
  have ix: "0 < length xs" using i by (simp add: xs_def)
  have "rolling window_size xs ! 0 = drop (Suc 0 - window_size) (take (Suc 0) xs)"
    by (rule rolling_nth[OF ix])
  also have "\<dots> = [xs ! 0]"
    using ix by (cases xs) (simp_all add: window_size_def)
  finally have w: "rolling window_size (map Close (sort_key Date selected)) ! 0
      = [Close (sort_key Date selected ! 0)]"
    using i by (simp add: xs_def)
  have "window_mean 1 [c] = Num c" for c by (simp add: window_mean_def)
  moreover have "window_std 1 [c] = NaN" for c by (simp add: window_std_def)
  ultimately show ?thesis
    unfolding p analyze_stock_nth[OF i] w by (simp add: fgt_def fsub_def)
qed

subsection \<open>The run with a long series\<close>

lemma demo_dlf_loaded: "load_file ''DLF'' demo_dlf = map (tag ''DLF'') demo_dlf"
  by (simp add: load_file_def sort_values_Date_Expiry_def groupby_Date_first_def
      List.map_filter_def strip_columns_def tag_def demo_dlf_def)

lemma demo_long_observations:
  "observations demo_dates_long demo_files_long ''DLF'' =
     [(20089, 10), (20090, 12), (20091, 11), (20092, 13), (20093, 15), (20094, 14),
      (20095, 16), (20096, 18), (20097, 17), (20098, 19), (20099, 21), (20100, 20)]"
  by (simp add: observations_def files_def demo_files_long_def table_rows_def demo_dlf_loaded)
     (simp add: demo_dlf_def tag_def demo_dates_long_def List.map_filter_def)

lemma demo_long_returns:
  "\<exists>msgs data. load_and_analyze_data demo_dates_long demo_files_long = (msgs, Inr data)"
proof -
  have a: "\<forall>(s, f) \<in> set files. demo_files_long f \<noteq> Unreadable"
    by (simp add: files_def demo_files_long_def)
  have b: "\<forall>r \<in> set (concat (map (\<lambda>(s, f). load_file s (table_rows (demo_files_long f))) files)).
      demo_dates_long (Date r) \<noteq> None"
    by (simp add: files_def demo_files_long_def table_rows_def demo_dlf_loaded load_file_Nil)
       (simp add: demo_dlf_def tag_def demo_dates_long_def)
  from load_and_analyze_ok[OF a b] show ?thesis
    unfolding load_and_analyze_data_def by blast
qed

text \<open>
  C2. The rows of one instrument in the result are the observations loaded for this
  instrument, one row for each, in order of date. At every index \<open>i\<close> of these
  observations the moving average is the arithmetic mean of their closes in the window
  \<open>max(0, i - 10 + 1) .. i\<close>, which has \<open>min(i + 1, 10)\<close> elements, and the standard
  deviation is NaN for a window of one element and the sample standard deviation
  (denominator \<open>n - 1\<close>) of the same window otherwise. The observations come from the
  files of this instrument only, so no window holds a close of another instrument.
\<close>

theorem rolling_statistics_refine_spec:
  assumes "load_and_analyze_data td rd = (msgs, Inr data)"
    and "obs = filter (\<lambda>p. Stock p = a) data"
    and "closes = map snd (observations td rd a)"
  shows "map Date obs = map fst (observations td rd a)
       \<and> map Close obs = closes
       \<and> sorted (map fst (observations td rd a))
       \<and> (\<forall>i < length closes.
             length (spec_window 10 closes i) = min (i + 1) 10
           \<and> MA_10 (obs ! i) = Num (spec_mean (spec_window 10 closes i))
           \<and> STD_10 (obs ! i) =
                (if length (spec_window 10 closes i) = 1 then NaN
                 else Num (spec_sample_std (spec_window 10 closes i))))"
proof -
  have tie: "map (\<lambda>p. (Date p, Close p)) obs = observations td rd a"
    unfolding assms(2) by (rule instrument_rows[OF assms(1)])
  have d: "map Date obs = map fst (observations td rd a)"
    unfolding tie[symmetric] by (simp add: comp_def)
  have c: "map Close obs = closes"
    unfolding assms(3) tie[symmetric] by (simp add: comp_def)
  have s: "sorted (map fst (observations td rd a))"
    by (simp add: observations_def)
  have len: "length obs = length closes" using arg_cong[OF c, of length] by simp
  have "length (spec_window 10 closes i) = min (i + 1) 10
           \<and> MA_10 (obs ! i) = Num (spec_mean (spec_window 10 closes i))
           \<and> STD_10 (obs ! i) =
                (if length (spec_window 10 closes i) = 1 then NaN
                 else Num (spec_sample_std (spec_window 10 closes i)))"
    if "i < length closes" for i
    using window_statistics[OF assms(1,2), of i] that unfolding c len by simp
  with d c s show ?thesis by blast
qed

theorem rolling_statistics_refine_spec_witness:
  "\<exists>msgs data. load_and_analyze_data demo_dates_long demo_files_long = (msgs, Inr data)
     \<and> map snd (observations demo_dates_long demo_files_long ''DLF'')
         = [10, 12, 11, 13, 15, 14, 16, 18, 17, 19, 21, 20]
     \<and> map Close (filter (\<lambda>p. Stock p = ''DLF'') data)
         = [10, 12, 11, 13, 15, 14, 16, 18, 17, 19, 21, 20]
     \<and> spec_window 10 [10, 12, 11, 13, 15, 14, 16, 18, 17, 19, 21, 20] 11
         = [11, 13, 15, 14, 16, 18, 17, 19, 21, 20]
     \<and> MA_10 (filter (\<lambda>p. Stock p = ''DLF'') data ! 11) = Num (82 / 5)
     \<and> STD_10 (filter (\<lambda>p. Stock p = ''DLF'') data ! 11)
         = Num (spec_sample_std [11, 13, 15, 14, 16, 18, 17, 19, 21, 20])"
proof -
  from demo_long_returns obtain msgs data where
    run: "load_and_analyze_data demo_dates_long demo_files_long = (msgs, Inr data)" by blast
  define obs where "obs = filter (\<lambda>p. Stock p = ''DLF'') data"
  define closes where "closes = map snd (observations demo_dates_long demo_files_long ''DLF'')"
  have cl: "closes = [10, 12, 11, 13, 15, 14, 16, 18, 17, 19, 21, 20]"
    by (simp add: closes_def demo_long_observations)
  have win: "spec_window 10 [10, 12, 11, 13, 15, 14, 16, 18, 17, 19, 21, 20] 11
         = [11, 13, 15, 14, 16, 18, 17, 19, 21, 20 :: real]"
    by (simp add: spec_window_def spec_start_def upt_rec)
  have mean: "spec_mean [11, 13, 15, 14, 16, 18, 17, 19, 21, 20] = 82 / 5"
    by (simp add: spec_mean_def)
  note t = rolling_statistics_refine_spec[OF run obs_def closes_def]
  from t have c: "map Close obs = closes" by blast
  from t have "length (spec_window 10 closes 11) = min (11 + 1) 10
           \<and> MA_10 (obs ! 11) = Num (spec_mean (spec_window 10 closes 11))
           \<and> STD_10 (obs ! 11) =
                (if length (spec_window 10 closes 11) = 1 then NaN
                 else Num (spec_sample_std (spec_window 10 closes 11)))"
    by (simp add: cl)
  then have st: "MA_10 (obs ! 11) = Num (82 / 5)
      \<and> STD_10 (obs ! 11) = Num (spec_sample_std [11, 13, 15, 14, 16, 18, 17, 19, 21, 20])"
    unfolding cl win mean by simp
  have c': "map Close obs = [10, 12, 11, 13, 15, 14, 16, 18, 17, 19, 21, 20]"
    using c cl by simp
  show ?thesis
    using run cl[unfolded closes_def] c'[unfolded obs_def] win st[unfolded obs_def]
    by (intro exI[of _ msgs] exI[of _ data] conjI) simp_all
qed

text \<open>
  C4. An instrument with at least one observation has rows in the result, as many as
  it has observations. The first of them is the first observation: its moving average
  is its close, its standard deviation is NaN and its signal is Hold.
\<close>

theorem warm_up_first_observation:
  assumes "load_and_analyze_data td rd = (msgs, Inr data)"
    and "observations td rd a = (t, c) # rest"
  shows "\<exists>p ps. filter (\<lambda>p. Stock p = a) data = p # ps \<and> length ps = length rest
       \<and> Date p = t \<and> Close p = c
       \<and> MA_10 p = Num c \<and> STD_10 p = NaN \<and> Signal p = Hold"
proof -
  have tie: "map (\<lambda>p. (Date p, Close p)) (filter (\<lambda>p. Stock p = a) data) = (t, c) # rest"
    using instrument_rows[OF assms(1), of a] assms(2) by simp
  then obtain p ps where f: "filter (\<lambda>p. Stock p = a) data = p # ps"
    and p: "Date p = t" "Close p = c" and ps: "map (\<lambda>p. (Date p, Close p)) ps = rest"
    by (cases "filter (\<lambda>p. Stock p = a) data") auto
  from ps have "length ps = length rest" by auto
  with first_row[OF assms(1) f] f p show ?thesis by auto
qed

theorem warm_up_first_observation_witness:
  "\<exists>msgs data. load_and_analyze_data demo_dates_long demo_files_long = (msgs, Inr data)
     \<and> hd (observations demo_dates_long demo_files_long ''DLF'') = (20089, 10)
     \<and> length (observations demo_dates_long demo_files_long ''DLF'') = 12
     \<and> length (filter (\<lambda>p. Stock p = ''DLF'') data) = 12
     \<and> Date (hd (filter (\<lambda>p. Stock p = ''DLF'') data)) = 20089
     \<and> MA_10 (hd (filter (\<lambda>p. Stock p = ''DLF'') data)) = Num 10
     \<and> STD_10 (hd (filter (\<lambda>p. Stock p = ''DLF'') data)) = NaN
     \<and> Signal (hd (filter (\<lambda>p. Stock p = ''DLF'') data)) = Hold"
proof -
  from demo_long_returns obtain msgs data where
    run: "load_and_analyze_data demo_dates_long demo_files_long = (msgs, Inr data)" by blast
  have o: "observations demo_dates_long demo_files_long ''DLF'' = (20089, 10) #
     [(20090, 12), (20091, 11), (20092, 13), (20093, 15), (20094, 14),
      (20095, 16), (20096, 18), (20097, 17), (20098, 19), (20099, 21), (20100, 20)]"
    by (rule demo_long_observations)
  from warm_up_first_observation[OF run o] obtain p ps where
    "filter (\<lambda>p. Stock p = ''DLF'') data = p # ps" and "length ps = 11"
    and "Date p = 20089" and "MA_10 p = Num 10" and "STD_10 p = NaN" and "Signal p = Hold"
    by auto
  with run show ?thesis by (auto simp: demo_long_observations)
qed

subsection \<open>Two runs\<close>

text \<open>
  C8, as the code has it. Two runs that read the same frames from the files of
  instrument \<open>a\<close>, whatever they read from the other files, and that both return a
  result, have the same rows for \<open>a\<close>: every cell, derived or not, agrees. These
  rows are the observations of \<open>a\<close>, one row for each, which are the same in both runs.
\<close>

theorem instrument_isolation:
  assumes "load_and_analyze_data td rd1 = (msgs1, Inr data1)"
    and "load_and_analyze_data td rd2 = (msgs2, Inr data2)"
    and "\<forall>(s, f) \<in> set files. s = a \<longrightarrow> rd1 f = rd2 f"
  shows "filter (\<lambda>p. Stock p = a) data1 = filter (\<lambda>p. Stock p = a) data2
       \<and> observations td rd1 a = observations td rd2 a
       \<and> map (\<lambda>p. (Date p, Close p)) (filter (\<lambda>p. Stock p = a) data1) = observations td rd1 a"
proof -
  have own: "filter (\<lambda>r. Stock r = a) (concat (map (\<lambda>(s, f). load_file s (table_rows (rd f))) fls))
      = concat (map (\<lambda>(s, f). load_file s (table_rows (rd f))) (filter (\<lambda>(s, f). s = a) fls))"
    for rd :: "string \<Rightarrow> csv" and fls
    by (induction fls) (auto simp: load_file_def tag_def filter_empty_conv intro: filter_True)
  have same: "map (\<lambda>(s, f). load_file s (table_rows (rd1 f))) (filter (\<lambda>(s, f). s = a) files)
      = map (\<lambda>(s, f). load_file s (table_rows (rd2 f))) (filter (\<lambda>(s, f). s = a) files)"
    using assms(3) by (intro map_cong) auto
  have rows: "filter (\<lambda>p. Stock p = a) data1 = filter (\<lambda>p. Stock p = a) data2"
    unfolding by_stock[OF assms(1)[unfolded load_and_analyze_data_def]]
      by_stock[OF assms(2)[unfolded load_and_analyze_data_def]] own same ..
  have obs: "observations td rd1 a = observations td rd2 a"
    unfolding observations_def same ..
  from rows obs instrument_rows[OF assms(1), of a] show ?thesis by blast
qed

lemma demo_run_other:
  "load_and_analyze_data demo_dates demo_files_other = (demo_msgs_other, Inr (take 4 demo_data))"
  by (simp add: run_defs demo_dates_def demo_files_other_def demo_ntpc_def
      demo_msgs_other_def demo_data_def)

theorem instrument_isolation_witness:
  "load_and_analyze_data demo_dates demo_files = (demo_msgs, Inr demo_data)
   \<and> load_and_analyze_data demo_dates demo_files_other = (demo_msgs_other, Inr (take 4 demo_data))
   \<and> list_all (\<lambda>(s, f). demo_files f = demo_files_other f)
         (filter (\<lambda>(s, f). s = ''NTPC'') files)
   \<and> demo_files ''PAYTM.csv'' \<noteq> demo_files_other ''PAYTM.csv''
   \<and> filter (\<lambda>p. Stock p = ''NTPC'') demo_data
       = filter (\<lambda>p. Stock p = ''NTPC'') (take 4 demo_data)
   \<and> length (filter (\<lambda>p. Stock p = ''NTPC'') demo_data) = 4
   \<and> length (observations demo_dates demo_files ''NTPC'') = 4"
proof -
  have same: "\<forall>(s, f) \<in> set files. s = ''NTPC'' \<longrightarrow> demo_files f = demo_files_other f"
    by (simp add: files_def demo_files_def demo_files_other_def)
  have diff: "demo_files ''PAYTM.csv'' \<noteq> demo_files_other ''PAYTM.csv''"
    by (simp add: demo_files_def demo_files_other_def)
  have same': "list_all (\<lambda>(s, f). demo_files f = demo_files_other f)
         (filter (\<lambda>(s, f). s = ''NTPC'') files)"
    by (simp add: files_def demo_files_def demo_files_other_def)
  note t = instrument_isolation[OF demo_run demo_run_other same]
  have four: "length (filter (\<lambda>p. Stock p = ''NTPC'') demo_data) = 4"
    by (simp add: demo_data_def)
  from t have m: "map (\<lambda>p. (Date p, Close p)) (filter (\<lambda>p. Stock p = ''NTPC'') demo_data)
      = observations demo_dates demo_files ''NTPC''" by blast
  have obs: "length (observations demo_dates demo_files ''NTPC'') = 4"
    unfolding m[symmetric] using four by simp
  from t demo_run demo_run_other same' diff four obs show ?thesis by blast
qed

text \<open>
  The claim C8 as stated fails: this run differs from the first concrete run in
  \<open>PAYTM.csv\<close> only. Line 44 parses the dates of all instruments in one call, the
  date of PAYTM makes it raise, and the values computed for NTPC in the first run are
  not computed in this one.
\<close>

theorem unparseable_date_elsewhere_aborts:
  "demo_files_baddate ''Eternal.csv'' = demo_files ''Eternal.csv''
   \<and> demo_files_baddate ''ADANIGREEN.csv'' = demo_files ''ADANIGREEN.csv''
   \<and> demo_files_baddate ''NTPC.csv'' = demo_files ''NTPC.csv''
   \<and> demo_files_baddate ''DLF.csv'' = demo_files ''DLF.csv''
   \<and> load_and_analyze_data demo_dates demo_files = (demo_msgs, Inr demo_data)
   \<and> Stock (demo_data ! 3) = ''NTPC'' \<and> MA_10 (demo_data ! 3) = Num 2
   \<and> Signal (demo_data ! 3) = Sell
   \<and> load_and_analyze_data demo_dates demo_files_baddate
       = (demo_msgs, Inl (ValueError ''31-Feb-2025''))"
proof -
  have same: "demo_files_baddate ''Eternal.csv'' = demo_files ''Eternal.csv''
   \<and> demo_files_baddate ''ADANIGREEN.csv'' = demo_files ''ADANIGREEN.csv''
   \<and> demo_files_baddate ''NTPC.csv'' = demo_files ''NTPC.csv''
   \<and> demo_files_baddate ''DLF.csv'' = demo_files ''DLF.csv''"
    by (simp add: demo_files_baddate_def)
  have row: "Stock (demo_data ! 3) = ''NTPC'' \<and> MA_10 (demo_data ! 3) = Num 2
   \<and> Signal (demo_data ! 3) = Sell"
    by (simp add: demo_data_def)
  have bad: "load_and_analyze_data demo_dates demo_files_baddate
       = (demo_msgs, Inl (ValueError ''31-Feb-2025''))"
    by (simp add: run_defs demo_dates_def demo_files_baddate_def demo_files_def demo_ntpc_def
        demo_msgs_def)
  from same demo_run row bad show ?thesis by blast
qed

end
